theory Spec2Isabelle
  imports Complex_Main "HOL-Library.Sublist"
begin

section \<open>Formatting helpers of \<open>pomodoro_simchn.pyw\<close>\<close>

text \<open>
  Python's \<open>f"{n:02d}"\<close>: the decimal digits of \<open>n\<close>, a leading minus sign for a negative
  number, and zeros after the sign up to a total width of at least two characters. The
  width is a minimum: a longer number is never cut.
\<close>

definition digit_char :: "nat \<Rightarrow> char" where
  "digit_char d = ''0123456789'' ! d"

function str_nat :: "nat \<Rightarrow> string" where
  "str_nat n = (if n < 10 then [digit_char n] else str_nat (n div 10) @ [digit_char (n mod 10)])"
  by pat_completeness auto
termination
  by (relation "measure id") auto

declare str_nat.simps [simp del]

definition fmt_02d :: "int \<Rightarrow> string" where
  "fmt_02d n =
     (let sgn = (if n < 0 then ''-'' else ''''); ds = str_nat (nat \<bar>n\<bar>)
      in sgn @ replicate (2 - length sgn - length ds) CHR ''0'' @ ds)"

text \<open>
  \<^verbatim>\<open>
  def fmt_mm_ss(sec: int) -> str:
      if sec < 0: sec = 0
      m, s = divmod(sec, 60)
      return f"{m:02d}:{s:02d}"
  def fmt_progress(n: int, d: int) -> str:
      n = max(0, n); d = max(0, d)
      return f"{n:02d}/{d:02d}"
  \<close>
\<close>

definition fmt_mm_ss :: "int \<Rightarrow> string" where
  "fmt_mm_ss sec =
     (let sec1 = (if sec < 0 then 0 else sec); m = sec1 div 60; s = sec1 mod 60
      in fmt_02d m @ '':'' @ fmt_02d s)"

definition fmt_progress :: "int \<Rightarrow> int \<Rightarrow> string" where
  "fmt_progress n d = (let n1 = max 0 n; d1 = max 0 d in fmt_02d n1 @ ''/'' @ fmt_02d d1)"

text \<open>Reading a digit string back, to say which number a formatted field shows.\<close>

definition is_digit :: "char \<Rightarrow> bool" where
  "is_digit c = (c \<in> set ''0123456789'')"

definition digit_val :: "char \<Rightarrow> nat" where
  "digit_val c = of_char c - 48"

definition val_digits :: "string \<Rightarrow> nat" where
  "val_digits cs = foldl (\<lambda>acc c. 10 * acc + digit_val c) 0 cs"

section \<open>The clock\<close>

text \<open>
  \<open>time.monotonic()\<close> returns a float of seconds. The model reads the clock as an exact
  rational; every operation takes the value it reads as an argument. Python's \<open>round(x)\<close>
  on a float returns the nearest integer and rounds a tie to the even neighbour.
\<close>

definition py_round :: "rat \<Rightarrow> int" where
  "py_round x =
     (let f = \<lfloor>x\<rfloor>; r = x - of_int f
      in if r < 1 / 2 then f else if 1 / 2 < r then f + 1 else if even f then f else f + 1)"

section \<open>The application state\<close>

datatype mode = Idle | Study | Break

text \<open>
  The fields of \<open>PomodoroApp\<close> that the timer reads or writes. \<open>lbl_status\<close>,
  \<open>lbl_bottom\<close> and \<open>btn_start\<close> stand for the text of the widgets of those names;
  \<open>audio_path\<close> is what \<open>find_audio_file\<close> returned at start-up.
\<close>

record app =
  audio_path :: "string option"
  total_sessions :: int
  done_pomodoros :: int
  mode :: mode
  paused :: bool
  paused_left :: int
  status_before_pause :: string
  pomo_min :: int
  short_min :: int
  long_min :: int
  phase_end_monot :: rat
  lbl_status :: string
  lbl_bottom :: string
  btn_start :: string

text \<open>
  The four entry fields as \<open>_read_settings\<close> sees them: each is the result of
  \<open>int(var.get().strip())\<close>, \<open>None\<close> when \<open>int\<close> raises.
\<close>

record entries =
  var_sessions :: "int option"
  var_pomo_min :: "int option"
  var_short_min :: "int option"
  var_long_min :: "int option"

text \<open>The three \<open>messagebox.showerror\<close> dialogs of \<open>_read_settings\<close>, by title.\<close>

datatype error = Invalid_input | Invalid_Sessions | Invalid_minutes

text \<open>
  What an operation does besides changing the state: an error dialog, or the call
  \<open>play_sound_async(self.audio_path)\<close> with its argument.
\<close>

datatype effect = ShowError error | PlaySoundAsync "string option"

definition init :: "string option \<Rightarrow> app" where
  "init ap =
     \<lparr>audio_path = ap, total_sessions = 0, done_pomodoros = 0, mode = Idle, paused = False,
      paused_left = 0, status_before_pause = ''READY'', pomo_min = 25, short_min = 5,
      long_min = 15, phase_end_monot = 0, lbl_status = ''READY'',
      lbl_bottom = fmt_progress 0 0 @ ''    00:00'', btn_start = ''Start''\<rparr>"

section \<open>Reading the settings\<close>

definition read_settings :: "entries \<Rightarrow> error + (int \<times> int \<times> int \<times> int)" where
  "read_settings e =
     (case (var_sessions e, var_pomo_min e, var_short_min e, var_long_min e) of
        (Some s, Some p, Some sb, Some lb) \<Rightarrow>
          if \<not> (1 \<le> s \<and> s \<le> 20) then Inl Invalid_Sessions
          else if p \<le> 0 \<or> sb \<le> 0 \<or> lb \<le> 0 then Inl Invalid_minutes
          else Inr (s, p, sb, lb)
      | _ \<Rightarrow> Inl Invalid_input)"

section \<open>Rendering the second line\<close>

definition render_bottom_dynamic :: "int \<Rightarrow> int \<Rightarrow> app \<Rightarrow> app" where
  "render_bottom_dynamic numerator total_seconds s =
     s\<lparr>lbl_bottom := fmt_progress numerator (total_sessions s) @ ''    '' @ fmt_mm_ss total_seconds\<rparr>"

definition update_bottom_with_left :: "int \<Rightarrow> app \<Rightarrow> app" where
  "update_bottom_with_left left_seconds s =
     (let numerator = done_pomodoros s + (if mode s = Study then 1 else 0)
      in s\<lparr>lbl_bottom := fmt_progress numerator (total_sessions s) @ ''    '' @ fmt_mm_ss left_seconds\<rparr>)"

definition render_bottom_static :: "string \<Rightarrow> app \<Rightarrow> app" where
  "render_bottom_static mmss s =
     s\<lparr>lbl_bottom := fmt_progress (done_pomodoros s) (total_sessions s) @ ''    '' @ mmss\<rparr>"

section \<open>Phase transitions\<close>

definition enter_study :: "rat \<Rightarrow> app \<Rightarrow> app" where
  "enter_study now s =
     (let s1 = s\<lparr>mode := Study, lbl_status := ''STUDY'', status_before_pause := ''STUDY''\<rparr>;
          dur = pomo_min s1 * 60;
          s2 = s1\<lparr>phase_end_monot := now + of_int dur, paused := False\<rparr>
      in render_bottom_dynamic (done_pomodoros s2 + 1) dur s2)"

definition enter_break :: "rat \<Rightarrow> app \<Rightarrow> app" where
  "enter_break now s =
     (let s1 = s\<lparr>mode := Break, lbl_status := ''BREAK'', status_before_pause := ''BREAK''\<rparr>;
          dur = (if done_pomodoros s1 mod 5 = 0 then long_min s1 else short_min s1) * 60;
          s2 = s1\<lparr>phase_end_monot := now + of_int dur, paused := False\<rparr>
      in render_bottom_dynamic (done_pomodoros s2) dur s2)"

definition advance_phase :: "rat \<Rightarrow> app \<Rightarrow> app" where
  "advance_phase now s =
     (if mode s = Study then
        (let s1 = s\<lparr>done_pomodoros := done_pomodoros s + 1\<rparr>
         in if total_sessions s1 \<le> done_pomodoros s1 then
              (render_bottom_static ''00:00''
                 (s1\<lparr>mode := Idle, lbl_status := ''READY'', status_before_pause := ''READY''\<rparr>))
              \<lparr>btn_start := ''Start''\<rparr>
            else enter_break now s1)
      else if mode s = Break then enter_study now s
      else s)"

section \<open>The heartbeat\<close>

text \<open>
  \<open>_heartbeat\<close> reads the clock once (\<open>now\<close>) to compute the seconds left; when the
  phase is over, \<open>_enter_study\<close> or \<open>_enter_break\<close> reads it again (\<open>now2\<close>) to set the
  next deadline. The wall-clock line (\<open>_update_clock\<close>) and the rescheduling through
  \<open>after\<close> are not part of the model.
\<close>

definition left_at :: "rat \<Rightarrow> app \<Rightarrow> int" where
  "left_at now s = py_round (phase_end_monot s - now)"

definition heartbeat :: "rat \<Rightarrow> rat \<Rightarrow> app \<Rightarrow> effect list \<times> app" where
  "heartbeat now now2 s =
     (if mode s = Study \<or> mode s = Break then
        (if paused s then ([], update_bottom_with_left (paused_left s) s)
         else (let left = left_at now s
               in if left \<le> 0 then ([PlaySoundAsync (audio_path s)], advance_phase now2 s)
                  else ([], update_bottom_with_left left s)))
      else ([], s))"

section \<open>Start / Pause / Resume and Reset\<close>

definition on_start_pause_resume :: "entries \<Rightarrow> rat \<Rightarrow> app \<Rightarrow> effect list \<times> app" where
  "on_start_pause_resume e now s =
     (if mode s = Idle then
        (case read_settings e of
           Inl err \<Rightarrow> ([ShowError err], s)
         | Inr (ts, p, sb, lb) \<Rightarrow>
             ([], (enter_study now
                     (s\<lparr>total_sessions := ts, pomo_min := p, short_min := sb, long_min := lb,
                        done_pomodoros := 0, paused := False\<rparr>))
                  \<lparr>btn_start := ''Pause''\<rparr>))
      else if \<not> paused s then
        (if mode s = Study \<or> mode s = Break then
           ([], s\<lparr>paused_left := max 0 (py_round (phase_end_monot s - now)),
                  paused := True,
                  status_before_pause := (if mode s = Study then ''STUDY'' else ''BREAK''),
                  lbl_status := ''PAUSE'', btn_start := ''Resume''\<rparr>)
         else ([], s))
      else
        (if mode s = Study \<or> mode s = Break then
           ([], s\<lparr>phase_end_monot := now + of_int (paused_left s), paused := False,
                  lbl_status := status_before_pause s, btn_start := ''Pause''\<rparr>)
         else ([], s)))"

definition on_reset :: "entries \<Rightarrow> app \<Rightarrow> effect list \<times> app" where
  "on_reset e s =
     (let (fx, s1) =
            (if total_sessions s \<le> 0 then
               (case read_settings e of
                  Inl err \<Rightarrow> ([ShowError err], s)
                | Inr (ts, p, sb, lb) \<Rightarrow>
                    ([], s\<lparr>total_sessions := ts, pomo_min := p, short_min := sb, long_min := lb\<rparr>))
             else ([], s));
          s2 = s1\<lparr>mode := Idle, paused := False, done_pomodoros := 0,
                  lbl_status := ''READY'', status_before_pause := ''READY''\<rparr>
      in (fx, (render_bottom_static ''00:00'' s2)\<lparr>btn_start := ''Start''\<rparr>))"

section \<open>Runs\<close>

text \<open>
  The callbacks that drive the timer: the Start/Pause/Resume button (with what the entry
  fields hold and the clock value read), the Reset button, and the heartbeat.
\<close>

datatype event = Press entries rat | Reset entries | Tick rat rat

fun step :: "event \<Rightarrow> app \<Rightarrow> effect list \<times> app" where
  "step (Press e now) s = on_start_pause_resume e now s"
| "step (Reset e) s = on_reset e s"
| "step (Tick now now2) s = heartbeat now now2 s"

fun exec :: "event list \<Rightarrow> app \<Rightarrow> app" where
  "exec [] s = s"
| "exec (ev # evs) s = exec evs (snd (step ev s))"

text \<open>The run state of the specification: everything but the widget texts.\<close>

definition run_state ::
  "app \<Rightarrow> mode \<times> bool \<times> int \<times> rat \<times> int \<times> string \<times> int \<times> int \<times> int \<times> int" where
  "run_state s =
     (mode s, paused s, done_pomodoros s, phase_end_monot s, paused_left s,
      status_before_pause s, total_sessions s, pomo_min s, short_min s, long_min s)"

section \<open>Predicates used in the statements\<close>

text \<open>Entry fields that all hold integers.\<close>

definition cfg :: "int \<Rightarrow> int \<Rightarrow> int \<Rightarrow> int \<Rightarrow> entries" where
  "cfg s p sb lb =
     \<lparr>var_sessions = Some s, var_pomo_min = Some p, var_short_min = Some sb, var_long_min = Some lb\<rparr>"

text \<open>
  A valid configuration in the words of the specification: four integers, the session
  count in 1..20 and the three durations positive. It is compared with what
  \<open>read_settings\<close> accepts.
\<close>

definition valid_config :: "entries \<Rightarrow> bool" where
  "valid_config e =
     (case (var_sessions e, var_pomo_min e, var_short_min e, var_long_min e) of
        (Some s, Some p, Some sb, Some lb) \<Rightarrow> 1 \<le> s \<and> s \<le> 20 \<and> 0 < p \<and> 0 < sb \<and> 0 < lb
      | _ \<Rightarrow> False)"

text \<open>
  The invariant of the timer: positive durations, a counter that stays below the session
  count while a phase runs, and a second line that starts with the progress of the
  current phase.
\<close>

definition inv :: "app \<Rightarrow> bool" where
  "inv s =
     (0 < pomo_min s \<and> 0 < short_min s \<and> 0 < long_min s \<and> 0 \<le> done_pomodoros s \<and>
      (if mode s = Idle then \<not> paused s \<and> done_pomodoros s \<le> total_sessions s
       else 1 \<le> total_sessions s \<and> total_sessions s \<le> 20 \<and>
            done_pomodoros s < total_sessions s) \<and>
      prefix (fmt_progress (done_pomodoros s + (if mode s = Study then 1 else 0)) (total_sessions s))
        (lbl_bottom s))"

text \<open>
  Runs. \<open>completes ev s\<close>: the event is a heartbeat that finds a running study phase
  over, so it counts a session. \<open>completed_in evs s\<close>: how many events of \<open>evs\<close>, run from
  \<open>s\<close>, do so. \<open>running evs s\<close>: a phase is on (the mode is not Idle) before, between and
  after the events of \<open>evs\<close> run from \<open>s\<close>, so they all belong to one run.
\<close>

fun completes :: "event \<Rightarrow> app \<Rightarrow> bool" where
  "completes (Tick now now2) s = (mode s = Study \<and> \<not> paused s \<and> left_at now s \<le> 0)"
| "completes (Press e now) s = False"
| "completes (Reset e) s = False"

fun completed_in :: "event list \<Rightarrow> app \<Rightarrow> int" where
  "completed_in [] s = 0"
| "completed_in (ev # evs) s =
     (if completes ev s then 1 else 0) + completed_in evs (snd (step ev s))"

fun running :: "event list \<Rightarrow> app \<Rightarrow> bool" where
  "running [] s = (mode s \<noteq> Idle)"
| "running (ev # evs) s = (mode s \<noteq> Idle \<and> running evs (snd (step ev s)))"

text \<open>
  The text of the Start/Pause/Resume button names what a press does next: Start in Idle,
  Pause in a running phase, Resume in a paused one.
\<close>

definition button_matches :: "app \<Rightarrow> bool" where
  "button_matches s =
     (btn_start s = (if mode s = Idle then ''Start'' else if paused s then ''Resume'' else ''Pause'') \<and>
      (mode s = Idle \<longrightarrow> \<not> paused s))"

section \<open>Facts about the formatters\<close>

lemma digit_cases:
  "(d::nat) < 10 \<Longrightarrow> d = 0 \<or> d = 1 \<or> d = 2 \<or> d = 3 \<or> d = 4 \<or> d = 5 \<or> d = 6 \<or> d = 7 \<or> d = 8 \<or> d = 9"
  by arith

lemma is_digit_digit_char: "d < 10 \<Longrightarrow> is_digit (digit_char d)"
  using digit_cases[of d] by (auto simp: is_digit_def digit_char_def)

lemma digit_val_digit_char: "d < 10 \<Longrightarrow> digit_val (digit_char d) = d"
  using digit_cases[of d] by (auto simp: digit_val_def digit_char_def)

lemma str_nat_digits: "list_all is_digit (str_nat n)"
proof (induction n rule: str_nat.induct)
  case (1 n)
  show ?case
  proof (cases "n < 10")
    case True
    then show ?thesis by (simp add: str_nat.simps[of n] is_digit_digit_char)
  next
    case False
    with 1 show ?thesis by (simp add: str_nat.simps[of n] is_digit_digit_char)
  qed
qed

lemma val_digits_snoc: "val_digits (cs @ [c]) = 10 * val_digits cs + digit_val c"
  by (simp add: val_digits_def)

lemma val_str_nat: "val_digits (str_nat n) = n"
proof (induction n rule: str_nat.induct)
  case (1 n)
  show ?case
  proof (cases "n < 10")
    case True
    then show ?thesis by (simp add: str_nat.simps[of n] digit_val_digit_char val_digits_def)
  next
    case False
    with 1 show ?thesis by (simp add: str_nat.simps[of n] digit_val_digit_char val_digits_snoc)
  qed
qed

lemma length_str_nat_pos: "1 \<le> length (str_nat n)"
  by (subst str_nat.simps) simp

lemma length_str_nat_1: "n < 10 \<Longrightarrow> length (str_nat n) = 1"
  by (subst str_nat.simps) simp

lemma length_str_nat_2: "10 \<le> n \<Longrightarrow> n < 100 \<Longrightarrow> length (str_nat n) = 2"
  by (subst str_nat.simps) (simp add: length_str_nat_1)

lemma length_str_nat_3: "100 \<le> n \<Longrightarrow> 3 \<le> length (str_nat n)"
proof -
  assume h: "100 \<le> n"
  have "10 \<le> n div 10" using h by arith
  then have "2 \<le> length (str_nat (n div 10))"
    using length_str_nat_pos[of "n div 10 div 10"] by (subst str_nat.simps) simp
  then show ?thesis using h by (subst str_nat.simps) simp
qed

lemma digit_val_zero: "digit_val CHR ''0'' = 0"
  by (simp add: digit_val_def)

lemma val_digits_zeros: "val_digits (replicate k CHR ''0'' @ cs) = val_digits cs"
proof -
  have "foldl (\<lambda>acc c. 10 * acc + digit_val c) 0 (replicate k CHR ''0'') = 0"
    by (induction k) (simp_all add: digit_val_zero)
  then show ?thesis by (simp add: val_digits_def)
qed

lemma zeros_digits: "list_all is_digit (replicate k CHR ''0'')"
  by (induction k) (simp_all add: is_digit_def)

lemma fmt_02d_nonneg:
  "0 \<le> n \<Longrightarrow> fmt_02d n = replicate (2 - length (str_nat (nat n))) CHR ''0'' @ str_nat (nat n)"
  by (simp add: fmt_02d_def Let_def)

lemma fmt_02d_digits: "0 \<le> n \<Longrightarrow> list_all is_digit (fmt_02d n)"
  by (simp add: fmt_02d_nonneg str_nat_digits zeros_digits)

lemma fmt_02d_val: "0 \<le> n \<Longrightarrow> int (val_digits (fmt_02d n)) = n"
  by (simp add: fmt_02d_nonneg val_digits_zeros val_str_nat)

lemma fmt_02d_length: "0 \<le> n \<Longrightarrow> 2 \<le> length (fmt_02d n) \<and> (length (fmt_02d n) = 2 \<longleftrightarrow> n < 100)"
proof -
  assume h: "0 \<le> n"
  consider "nat n < 10" | "10 \<le> nat n" "nat n < 100" | "100 \<le> nat n" by linarith
  then show ?thesis
  proof cases
    case 1
    then show ?thesis using h by (simp add: fmt_02d_nonneg length_str_nat_1)
  next
    case 2
    then show ?thesis using h by (simp add: fmt_02d_nonneg length_str_nat_2)
  next
    case 3
    then show ?thesis using h length_str_nat_3[of "nat n"] by (simp add: fmt_02d_nonneg)
  qed
qed

section \<open>Facts about the clock and the invariant\<close>

lemma py_round_of_int: "py_round (of_int n) = n"
  by (simp add: py_round_def Let_def)

lemma py_round_add_sub: "py_round (now + of_int n - now) = n"
  by (simp add: py_round_def Let_def)

lemmas ops_defs = heartbeat_def advance_phase_def enter_break_def enter_study_def
  render_bottom_dynamic_def render_bottom_static_def update_bottom_with_left_def
  on_start_pause_resume_def on_reset_def left_at_def
lemma read_settings_Inr:
  "read_settings e = Inr (ts, p, sb, lb) \<Longrightarrow> 1 \<le> ts \<and> ts \<le> 20 \<and> 0 < p \<and> 0 < sb \<and> 0 < lb"
  by (auto simp: read_settings_def split: option.splits if_splits)

lemma inv_init: "inv (init ap)"
  by (simp add: inv_def init_def)

lemma inv_press: "inv s \<Longrightarrow> inv (snd (on_start_pause_resume e now s))"
  by (auto simp: inv_def ops_defs Let_def split: sum.splits prod.splits if_splits dest!: read_settings_Inr)

lemma inv_reset: "inv s \<Longrightarrow> inv (snd (on_reset e s))"
  by (auto simp: inv_def ops_defs Let_def split: sum.splits prod.splits if_splits dest!: read_settings_Inr)

lemma inv_heartbeat: "inv s \<Longrightarrow> inv (snd (heartbeat now now2 s))"
  by (auto simp: inv_def ops_defs Let_def split: if_splits)

lemma inv_step: "inv s \<Longrightarrow> inv (snd (step ev s))"
  by (cases ev) (simp_all add: inv_press inv_reset inv_heartbeat)

lemma inv_exec: "inv s \<Longrightarrow> inv (exec evs s)"
  by (induction evs arbitrary: s) (simp_all add: inv_step)

lemma inv_reachable: "inv (exec evs (init ap))"
  by (rule inv_exec) (rule inv_init)

text \<open>\<open>read_settings\<close> accepts exactly the valid configurations.\<close>

lemma read_settings_valid: "(\<exists>v. read_settings e = Inr v) \<longleftrightarrow> valid_config e"
  by (auto simp: read_settings_def valid_config_def split: option.splits)

text \<open>A start from Idle with a valid configuration enters the first study phase.\<close>

lemma start_valid_config:
  assumes "mode s = Idle" and "valid_config e"
  shows "fst (on_start_pause_resume e now s) = [] \<and>
         mode (snd (on_start_pause_resume e now s)) = Study \<and>
         done_pomodoros (snd (on_start_pause_resume e now s)) = 0 \<and>
         \<not> paused (snd (on_start_pause_resume e now s)) \<and>
         Some (total_sessions (snd (on_start_pause_resume e now s))) = var_sessions e \<and>
         phase_end_monot (snd (on_start_pause_resume e now s)) =
           now + of_int (the (var_pomo_min e) * 60)"
  using assms
  by (auto simp: ops_defs read_settings_def valid_config_def Let_def split: option.splits)

section \<open>A heartbeat right after a heartbeat\<close>

lemma py_round_of_int_times: "py_round (of_int a * 60) = a * 60"
  using py_round_of_int[of "a * 60"] by simp

lemma hb_idle: "mode s = Idle \<Longrightarrow> heartbeat now now2 s = ([], s)"
  by (simp add: heartbeat_def)

lemma hb_paused:
  "mode s \<noteq> Idle \<Longrightarrow> paused s \<Longrightarrow>
   heartbeat now now2 s = ([], update_bottom_with_left (paused_left s) s)"
  by (cases "mode s") (simp_all add: heartbeat_def)

lemma hb_running:
  "mode s \<noteq> Idle \<Longrightarrow> \<not> paused s \<Longrightarrow> 0 < left_at now s \<Longrightarrow>
   heartbeat now now2 s = ([], update_bottom_with_left (left_at now s) s)"
  by (cases "mode s") (simp_all add: heartbeat_def Let_def)

lemma hb_advance:
  "mode s \<noteq> Idle \<Longrightarrow> \<not> paused s \<Longrightarrow> left_at now s \<le> 0 \<Longrightarrow>
   heartbeat now now2 s = ([PlaySoundAsync (audio_path s)], advance_phase now2 s)"
  by (cases "mode s") (simp_all add: heartbeat_def Let_def)

lemma ubl_fields:
  "mode (update_bottom_with_left l s) = mode s"
  "paused (update_bottom_with_left l s) = paused s"
  "paused_left (update_bottom_with_left l s) = paused_left s"
  "left_at now (update_bottom_with_left l s) = left_at now s"
  by (simp_all add: update_bottom_with_left_def left_at_def Let_def)

lemma ubl_idem: "update_bottom_with_left l (update_bottom_with_left l s) = update_bottom_with_left l s"
  by (simp add: update_bottom_with_left_def Let_def)

lemma enter_break_tick:
  assumes "0 < short_min s" and "0 < long_min s"
  shows "heartbeat now now2 (enter_break now s) = ([], enter_break now s)"
proof -
  let ?d = "(if done_pomodoros s mod 5 = 0 then long_min s else short_min s) * 60"
  have m: "mode (enter_break now s) = Break" "\<not> paused (enter_break now s)"
    by (simp_all add: enter_break_def render_bottom_dynamic_def Let_def)
  have l: "left_at now (enter_break now s) = ?d"
    by (simp add: enter_break_def render_bottom_dynamic_def Let_def left_at_def py_round_of_int_times)
  have p: "0 < ?d" using assms by simp
  have u: "update_bottom_with_left ?d (enter_break now s) = enter_break now s"
    by (simp add: enter_break_def render_bottom_dynamic_def update_bottom_with_left_def Let_def)
  show ?thesis using hb_running[of "enter_break now s" now now2] m l p u by simp
qed

lemma enter_study_tick:
  assumes "0 < pomo_min s"
  shows "heartbeat now now2 (enter_study now s) = ([], enter_study now s)"
proof -
  let ?d = "pomo_min s * 60"
  have m: "mode (enter_study now s) = Study" "\<not> paused (enter_study now s)"
    by (simp_all add: enter_study_def render_bottom_dynamic_def Let_def)
  have l: "left_at now (enter_study now s) = ?d"
    by (simp add: enter_study_def render_bottom_dynamic_def Let_def left_at_def py_round_of_int_times)
  have p: "0 < ?d" using assms by simp
  have u: "update_bottom_with_left ?d (enter_study now s) = enter_study now s"
    by (simp add: enter_study_def render_bottom_dynamic_def update_bottom_with_left_def Let_def)
  show ?thesis using hb_running[of "enter_study now s" now now2] m l p u by simp
qed

lemma advance_phase_tick:
  assumes "0 < pomo_min s" and "0 < short_min s" and "0 < long_min s"
  shows "heartbeat now now2 (advance_phase now s) = ([], advance_phase now s)"
proof (cases "mode s")
  case Idle
  then show ?thesis by (simp add: advance_phase_def hb_idle)
next
  case Study
  show ?thesis
  proof (cases "total_sessions s \<le> done_pomodoros s + 1")
    case True
    with Study have "mode (advance_phase now s) = Idle"
      by (simp add: advance_phase_def render_bottom_static_def Let_def)
    then show ?thesis by (rule hb_idle)
  next
    case False
    with Study have "advance_phase now s = enter_break now (s\<lparr>done_pomodoros := done_pomodoros s + 1\<rparr>)"
      by (simp add: advance_phase_def Let_def)
    then show ?thesis using assms enter_break_tick[of "s\<lparr>done_pomodoros := done_pomodoros s + 1\<rparr>" now now2]
      by simp
  qed
next
  case Break
  then have "advance_phase now s = enter_study now s" by (simp add: advance_phase_def)
  then show ?thesis using assms enter_study_tick[of s now now2] by simp
qed

lemma heartbeat_twice:
  assumes "inv s"
  shows "heartbeat now now (snd (heartbeat now now s)) = ([], snd (heartbeat now now s))"
proof (cases "mode s = Idle")
  case True
  then show ?thesis by (simp add: hb_idle)
next
  case False
  show ?thesis
  proof (cases "paused s")
    case True
    with False show ?thesis by (simp add: hb_paused ubl_fields ubl_idem)
  next
    case np: False
    show ?thesis
    proof (cases "0 < left_at now s")
      case True
      with False np show ?thesis by (simp add: hb_running ubl_fields ubl_idem)
    next
      case False
      with \<open>mode s \<noteq> Idle\<close> np have "heartbeat now now s = ([PlaySoundAsync (audio_path s)], advance_phase now s)"
        by (simp add: hb_advance)
      then show ?thesis using assms advance_phase_tick[of s now now] by (simp add: inv_def)
    qed
  qed
qed

section \<open>One run: the stored configuration and the session counter\<close>

lemma valid_config_cfg: "valid_config e \<Longrightarrow> \<exists>n p sb lb. e = cfg n p sb lb"
  by (cases e) (auto simp: valid_config_def cfg_def split: option.splits)

lemma start_stores_cfg:
  assumes "mode s0 = Idle" and "valid_config (cfg n p sb lb)"
  shows "total_sessions (snd (on_start_pause_resume (cfg n p sb lb) t0 s0)) = n \<and>
         pomo_min (snd (on_start_pause_resume (cfg n p sb lb) t0 s0)) = p \<and>
         short_min (snd (on_start_pause_resume (cfg n p sb lb) t0 s0)) = sb \<and>
         long_min (snd (on_start_pause_resume (cfg n p sb lb) t0 s0)) = lb \<and>
         done_pomodoros (snd (on_start_pause_resume (cfg n p sb lb) t0 s0)) = 0"
  using assms
  by (simp add: on_start_pause_resume_def read_settings_def valid_config_def cfg_def
      enter_study_def render_bottom_dynamic_def Let_def)

lemma step_in_run:
  assumes "mode s \<noteq> Idle" and "mode (snd (step ev s)) \<noteq> Idle"
  shows "total_sessions (snd (step ev s)) = total_sessions s \<and>
         pomo_min (snd (step ev s)) = pomo_min s \<and>
         short_min (snd (step ev s)) = short_min s \<and>
         long_min (snd (step ev s)) = long_min s \<and>
         done_pomodoros (snd (step ev s)) = done_pomodoros s + (if completes ev s then 1 else 0)"
proof (cases ev)
  case (Press e now)
  with assms show ?thesis
    by (cases "mode s") (simp_all add: on_start_pause_resume_def)
next
  case (Reset e)
  with assms show ?thesis
    by (simp add: on_reset_def render_bottom_static_def Let_def split: prod.splits)
next
  case (Tick now now2)
  with assms show ?thesis
    by (cases "mode s")
       (auto simp: heartbeat_def advance_phase_def enter_break_def enter_study_def
          render_bottom_dynamic_def render_bottom_static_def update_bottom_with_left_def Let_def
          split: if_splits)
qed

lemma running_not_idle: "running evs s \<Longrightarrow> mode s \<noteq> Idle"
  by (cases evs) simp_all

lemma run_keeps:
  "running evs s \<Longrightarrow>
     total_sessions (exec evs s) = total_sessions s \<and>
     pomo_min (exec evs s) = pomo_min s \<and>
     short_min (exec evs s) = short_min s \<and>
     long_min (exec evs s) = long_min s \<and>
     done_pomodoros (exec evs s) = done_pomodoros s + completed_in evs s"
proof (induction evs arbitrary: s)
  case Nil
  then show ?case by simp
next
  case (Cons ev evs)
  from Cons.prems have a: "mode s \<noteq> Idle" and r: "running evs (snd (step ev s))" by simp_all
  from r have b: "mode (snd (step ev s)) \<noteq> Idle" by (rule running_not_idle)
  from step_in_run[OF a b] Cons.IH[OF r] show ?case by simp
qed

lemma study_over:
  assumes "mode s = Study" and "\<not> paused s" and "left_at now s \<le> 0"
  shows "done_pomodoros (snd (heartbeat now now2 s)) = done_pomodoros s + 1 \<and>
         (if total_sessions s \<le> done_pomodoros s + 1
          then mode (snd (heartbeat now now2 s)) = Idle
          else mode (snd (heartbeat now now2 s)) = Break \<and>
               phase_end_monot (snd (heartbeat now now2 s)) - now2 =
                 of_int ((if (done_pomodoros s + 1) mod 5 = 0 then long_min s else short_min s) * 60))"
  using assms by (simp add: ops_defs Let_def)

section \<open>The Start/Pause/Resume button\<close>

text \<open>
  In a study or break phase a press toggles the paused flag and shows no error: pressed
  while paused it sets the deadline to the clock value plus the frozen seconds and keeps
  the frozen value; pressed while running it freezes \<open>max(0, round(deadline - now))\<close> and
  keeps the deadline.
\<close>

lemma press_toggles:
  assumes "mode s \<noteq> Idle"
  shows "fst (on_start_pause_resume e now s) = [] \<and>
         paused (snd (on_start_pause_resume e now s)) = (\<not> paused s) \<and>
         mode (snd (on_start_pause_resume e now s)) = mode s \<and>
         done_pomodoros (snd (on_start_pause_resume e now s)) = done_pomodoros s \<and>
         total_sessions (snd (on_start_pause_resume e now s)) = total_sessions s \<and>
         (if paused s
          then phase_end_monot (snd (on_start_pause_resume e now s)) = now + of_int (paused_left s) \<and>
               paused_left (snd (on_start_pause_resume e now s)) = paused_left s
          else paused_left (snd (on_start_pause_resume e now s)) = max 0 (left_at now s) \<and>
               phase_end_monot (snd (on_start_pause_resume e now s)) = phase_end_monot s)"
  using assms by (cases "mode s") (simp_all add: on_start_pause_resume_def left_at_def)

lemma button_matches_init: "button_matches (init ap)"
  by (simp add: button_matches_def init_def)

lemma button_matches_step: "button_matches s \<Longrightarrow> button_matches (snd (step ev s))"
proof (cases ev)
  case (Press e now)
  then show "button_matches s \<Longrightarrow> button_matches (snd (step ev s))"
    by (cases "mode s")
       (auto simp: button_matches_def on_start_pause_resume_def enter_study_def
          render_bottom_dynamic_def Let_def split: sum.splits prod.splits)
next
  case (Reset e)
  then show "button_matches s \<Longrightarrow> button_matches (snd (step ev s))"
    by (simp add: button_matches_def on_reset_def render_bottom_static_def Let_def split: prod.splits)
next
  case (Tick now now2)
  then show "button_matches s \<Longrightarrow> button_matches (snd (step ev s))"
    by (cases "mode s")
       (auto simp: button_matches_def heartbeat_def advance_phase_def enter_break_def enter_study_def
          render_bottom_dynamic_def render_bottom_static_def update_bottom_with_left_def Let_def
          split: if_splits)
qed

lemma button_matches_exec: "button_matches s \<Longrightarrow> button_matches (exec evs s)"
  by (induction evs arbitrary: s) (simp_all add: button_matches_step)

lemma button_matches_reachable: "button_matches (exec evs (init ap))"
  by (rule button_matches_exec) (rule button_matches_init)

section \<open>The claims\<close>

text \<open>
  C1. A run started from Idle with the valid configuration \<open>cfg n p sb lb\<close>, followed by
  any events during which a phase stays on: the heartbeat that then finds the study phase
  over completes session \<open>k\<close>, one more than the sessions completed in the run so far.
  The timer goes to Idle when \<open>k\<close> reaches \<open>n\<close>; otherwise it enters a break whose deadline
  lies \<open>lb * 60\<close> seconds after the clock value read on entry when \<open>k mod 5 = 0\<close>, and
  \<open>sb * 60\<close> seconds after it otherwise.
\<close>

theorem break_cadence:
  fixes s0 :: app and n p sb lb :: int and t0 now now2 :: rat and evs :: "event list"
  defines "s1 \<equiv> snd (on_start_pause_resume (cfg n p sb lb) t0 s0)"
  defines "k \<equiv> completed_in evs s1 + 1"
  assumes "mode s0 = Idle" and "valid_config (cfg n p sb lb)" and "running evs s1"
    and "mode (exec evs s1) = Study" and "\<not> paused (exec evs s1)"
    and "left_at now (exec evs s1) \<le> 0"
  shows "done_pomodoros (snd (heartbeat now now2 (exec evs s1))) = k \<and>
         (if n \<le> k
          then mode (snd (heartbeat now now2 (exec evs s1))) = Idle
          else mode (snd (heartbeat now now2 (exec evs s1))) = Break \<and>
               phase_end_monot (snd (heartbeat now now2 (exec evs s1))) - now2 =
                 of_int ((if k mod 5 = 0 then lb else sb) * 60))"
proof -
  from start_stores_cfg[OF assms(3,4), of t0]
  have c: "total_sessions s1 = n" "short_min s1 = sb" "long_min s1 = lb" "done_pomodoros s1 = 0"
    unfolding s1_def by simp_all
  from run_keeps[OF assms(5)] c
  have r: "total_sessions (exec evs s1) = n" "short_min (exec evs s1) = sb"
    "long_min (exec evs s1) = lb" "done_pomodoros (exec evs s1) + 1 = k"
    unfolding k_def by simp_all
  from study_over[OF assms(6,7,8), of now2] r show ?thesis by simp
qed

theorem break_cadence_witness:
  "mode (init None) = Idle \<and> valid_config (cfg 12 25 7 20) \<and>
   running [Tick 1500 1500, Tick 1920 1920, Tick 3420 3420, Tick 3840 3840, Tick 5340 5340,
            Tick 5760 5760, Tick 7260 7260, Tick 7680 7680]
     (snd (on_start_pause_resume (cfg 12 25 7 20) 0 (init None))) \<and>
   completed_in [Tick 1500 1500, Tick 1920 1920, Tick 3420 3420, Tick 3840 3840, Tick 5340 5340,
            Tick 5760 5760, Tick 7260 7260, Tick 7680 7680]
     (snd (on_start_pause_resume (cfg 12 25 7 20) 0 (init None))) = 4 \<and>
   done_pomodoros (snd (heartbeat 9180 9181
     (exec [Tick 1500 1500, Tick 1920 1920, Tick 3420 3420, Tick 3840 3840, Tick 5340 5340,
            Tick 5760 5760, Tick 7260 7260, Tick 7680 7680]
        (snd (on_start_pause_resume (cfg 12 25 7 20) 0 (init None)))))) = 5 \<and>
   mode (snd (heartbeat 9180 9181
     (exec [Tick 1500 1500, Tick 1920 1920, Tick 3420 3420, Tick 3840 3840, Tick 5340 5340,
            Tick 5760 5760, Tick 7260 7260, Tick 7680 7680]
        (snd (on_start_pause_resume (cfg 12 25 7 20) 0 (init None)))))) = Break \<and>
   phase_end_monot (snd (heartbeat 9180 9181
     (exec [Tick 1500 1500, Tick 1920 1920, Tick 3420 3420, Tick 3840 3840, Tick 5340 5340,
            Tick 5760 5760, Tick 7260 7260, Tick 7680 7680]
        (snd (on_start_pause_resume (cfg 12 25 7 20) 0 (init None)))))) - 9181 = 1200"
proof -
  define evs where "evs = [Tick 1500 1500, Tick 1920 1920, Tick 3420 3420, Tick 3840 3840,
    Tick 5340 5340, Tick 5760 5760, Tick 7260 7260, Tick 7680 7680]"
  define s1 where "s1 = snd (on_start_pause_resume (cfg 12 25 7 20) 0 (init None))"
  have h1: "mode (init None) = Idle" by code_simp
  have h2: "valid_config (cfg 12 25 7 20)" by code_simp
  have h3: "running evs s1" unfolding evs_def s1_def by code_simp
  have h4: "mode (exec evs s1) = Study" unfolding evs_def s1_def by code_simp
  have h5: "\<not> paused (exec evs s1)" unfolding evs_def s1_def by code_simp
  have h6: "left_at 9180 (exec evs s1) \<le> 0" unfolding evs_def s1_def by code_simp
  have c: "completed_in evs s1 = 4" unfolding evs_def s1_def by code_simp
  from break_cadence[OF h1 h2 h3[unfolded s1_def] h4[unfolded s1_def] h5[unfolded s1_def]
      h6[unfolded s1_def], of 9181] c[unfolded s1_def]
  have "done_pomodoros (snd (heartbeat 9180 9181 (exec evs s1))) = 5 \<and>
        mode (snd (heartbeat 9180 9181 (exec evs s1))) = Break \<and>
        phase_end_monot (snd (heartbeat 9180 9181 (exec evs s1))) - 9181 = 1200"
    unfolding s1_def by simp
  with h1 h2 h3 c show ?thesis unfolding evs_def s1_def by blast
qed

text \<open>A run of two sessions of one minute with breaks of 7 and 20 minutes.\<close>

lemma short_run_7_20:
  "phase_end_monot (exec [Press (cfg 2 1 7 20) 0, Tick 60 60] (init None)) = 60 + 420 \<and>
   mode (exec [Press (cfg 2 1 7 20) 0, Tick 60 60] (init None)) = Break \<and>
   mode (exec [Press (cfg 2 1 7 20) 0, Tick 60 60, Tick 480 480] (init None)) = Study \<and>
   mode (exec [Press (cfg 2 1 7 20) 0, Tick 60 60, Tick 480 480, Tick 540 540] (init None)) = Idle \<and>
   done_pomodoros (exec [Press (cfg 2 1 7 20) 0, Tick 60 60, Tick 480 480, Tick 540 540] (init None)) = 2"
  by code_simp

text \<open>
  C2. From Idle, entry fields that are not a valid configuration make
  \<open>on_start_pause_resume\<close> show an error dialog and return the state as it was.
\<close>

theorem start_invalid_config:
  assumes "mode s = Idle" and "\<not> valid_config e"
  shows "\<exists>err. on_start_pause_resume e now s = ([ShowError err], s)"
  using assms
  by (auto simp: on_start_pause_resume_def read_settings_def valid_config_def split: option.splits)

theorem start_invalid_config_witness:
  "mode (init None) = Idle \<and> \<not> valid_config (cfg 21 25 5 15) \<and>
   on_start_pause_resume (cfg 21 25 5 15) 0 (init None) = ([ShowError Invalid_Sessions], init None)"
proof -
  have h1: "mode (init None) = Idle" by code_simp
  have h2: "\<not> valid_config (cfg 21 25 5 15)" by code_simp
  from start_invalid_config[OF h1 h2, of 0] obtain err
    where e: "on_start_pause_resume (cfg 21 25 5 15) 0 (init None) = ([ShowError err], init None)"
    by blast
  have "fst (on_start_pause_resume (cfg 21 25 5 15) 0 (init None)) = [ShowError Invalid_Sessions]"
    by code_simp
  with e have "err = Invalid_Sessions" by simp
  with e h1 h2 show ?thesis by blast
qed

text \<open>
  C3. Pausing a running phase at \<open>now1\<close> freezes \<open>max(0, round(deadline - now1))\<close>;
  resuming at \<open>now2\<close> sets the deadline so that the seconds left at \<open>now2\<close> are exactly
  the frozen value, whatever the length of the pause.
\<close>

theorem pause_resume_roundtrip:
  assumes "mode s \<noteq> Idle" and "\<not> paused s"
  shows "paused (snd (on_start_pause_resume e1 now1 s)) \<and>
         paused_left (snd (on_start_pause_resume e1 now1 s)) = max 0 (left_at now1 s) \<and>
         \<not> paused (snd (on_start_pause_resume e2 now2 (snd (on_start_pause_resume e1 now1 s)))) \<and>
         left_at now2 (snd (on_start_pause_resume e2 now2 (snd (on_start_pause_resume e1 now1 s)))) =
           paused_left (snd (on_start_pause_resume e1 now1 s)) \<and>
         mode (snd (on_start_pause_resume e2 now2 (snd (on_start_pause_resume e1 now1 s)))) = mode s"
  using assms
  by (cases "mode s") (simp_all add: on_start_pause_resume_def left_at_def py_round_add_sub py_round_of_int)

theorem pause_resume_roundtrip_witness:
  "mode (exec [Press (cfg 12 25 5 15) 0] (init None)) \<noteq> Idle \<and>
   \<not> paused (exec [Press (cfg 12 25 5 15) 0] (init None)) \<and>
   paused_left (snd (on_start_pause_resume (cfg 12 25 5 15) 10
      (exec [Press (cfg 12 25 5 15) 0] (init None)))) = 1490 \<and>
   left_at 100 (snd (on_start_pause_resume (cfg 12 25 5 15) 100
      (snd (on_start_pause_resume (cfg 12 25 5 15) 10
         (exec [Press (cfg 12 25 5 15) 0] (init None)))))) = 1490"
proof -
  define s where "s = exec [Press (cfg 12 25 5 15) 0] (init None)"
  have h1: "mode s \<noteq> Idle" unfolding s_def by code_simp
  have h2: "\<not> paused s" unfolding s_def by code_simp
  have l: "left_at 10 s = 1490" unfolding s_def by code_simp
  from pause_resume_roundtrip[OF h1 h2, of "cfg 12 25 5 15" 10 "cfg 12 25 5 15" 100] l
  have "paused_left (snd (on_start_pause_resume (cfg 12 25 5 15) 10 s)) = 1490 \<and>
        left_at 100 (snd (on_start_pause_resume (cfg 12 25 5 15) 100
          (snd (on_start_pause_resume (cfg 12 25 5 15) 10 s)))) = 1490"
    by simp
  with h1 h2 show ?thesis unfolding s_def by blast
qed

text \<open>
  C4. In every state reached from the initial state by button presses, resets and
  heartbeats, the completed sessions do not exceed the session count, and they equal it
  only in Idle.
\<close>

theorem completed_le_total:
  "done_pomodoros (exec evs (init ap)) \<le> total_sessions (exec evs (init ap)) \<and>
   (done_pomodoros (exec evs (init ap)) = total_sessions (exec evs (init ap)) \<longrightarrow>
      mode (exec evs (init ap)) = Idle)"
  using inv_reachable[of evs ap] by (auto simp: inv_def split: if_splits)

theorem completed_le_total_witness:
  "done_pomodoros (exec [Press (cfg 1 1 5 15) 0, Tick 60 60] (init None)) = 1 \<and>
   total_sessions (exec [Press (cfg 1 1 5 15) 0, Tick 60 60] (init None)) = 1 \<and>
   mode (exec [Press (cfg 1 1 5 15) 0, Tick 60 60] (init None)) = Idle"
proof -
  define s where "s = exec [Press (cfg 1 1 5 15) 0, Tick 60 60] (init None)"
  have d: "done_pomodoros s = 1" unfolding s_def by code_simp
  have t: "total_sessions s = 1" unfolding s_def by code_simp
  from completed_le_total[of "[Press (cfg 1 1 5 15) 0, Tick 60 60]" None] d t
  have "mode s = Idle" unfolding s_def by simp
  with d t show ?thesis unfolding s_def by blast
qed

text \<open>
  C5. In every reachable state the second line starts with the progress of the current
  phase: numerator \<open>done_pomodoros + 1\<close> in a study phase, \<open>done_pomodoros\<close> in a break,
  denominator \<open>total_sessions\<close>.
\<close>

theorem progress_numerator:
  "(mode (exec evs (init ap)) = Study \<longrightarrow>
      prefix (fmt_progress (done_pomodoros (exec evs (init ap)) + 1) (total_sessions (exec evs (init ap))))
        (lbl_bottom (exec evs (init ap)))) \<and>
   (mode (exec evs (init ap)) = Break \<longrightarrow>
      prefix (fmt_progress (done_pomodoros (exec evs (init ap))) (total_sessions (exec evs (init ap))))
        (lbl_bottom (exec evs (init ap))))"
  using inv_reachable[of evs ap] by (auto simp: inv_def split: if_splits)

theorem progress_numerator_witness:
  "mode (exec [Press (cfg 3 25 5 15) 0] (init None)) = Study \<and>
   prefix (fmt_progress (done_pomodoros (exec [Press (cfg 3 25 5 15) 0] (init None)) + 1)
             (total_sessions (exec [Press (cfg 3 25 5 15) 0] (init None))))
     (lbl_bottom (exec [Press (cfg 3 25 5 15) 0] (init None))) \<and>
   lbl_bottom (exec [Press (cfg 3 25 5 15) 0] (init None)) = ''01/03    25:00'' \<and>
   mode (exec [Press (cfg 3 25 5 15) 0, Tick 1500 1500] (init None)) = Break \<and>
   prefix (fmt_progress (done_pomodoros (exec [Press (cfg 3 25 5 15) 0, Tick 1500 1500] (init None)))
             (total_sessions (exec [Press (cfg 3 25 5 15) 0, Tick 1500 1500] (init None))))
     (lbl_bottom (exec [Press (cfg 3 25 5 15) 0, Tick 1500 1500] (init None))) \<and>
   lbl_bottom (exec [Press (cfg 3 25 5 15) 0, Tick 1500 1500] (init None)) = ''01/03    05:00''"
proof -
  define s where "s = exec [Press (cfg 3 25 5 15) 0] (init None)"
  define b where "b = exec [Press (cfg 3 25 5 15) 0, Tick 1500 1500] (init None)"
  have ms: "mode s = Study" unfolding s_def by code_simp
  have mb: "mode b = Break" unfolding b_def by code_simp
  have ls: "lbl_bottom s = ''01/03    25:00''" unfolding s_def by code_simp
  have lb: "lbl_bottom b = ''01/03    05:00''" unfolding b_def by code_simp
  from progress_numerator[of "[Press (cfg 3 25 5 15) 0]" None] ms
  have ps: "prefix (fmt_progress (done_pomodoros s + 1) (total_sessions s)) (lbl_bottom s)"
    unfolding s_def by blast
  from progress_numerator[of "[Press (cfg 3 25 5 15) 0, Tick 1500 1500]" None] mb
  have pb: "prefix (fmt_progress (done_pomodoros b) (total_sessions b)) (lbl_bottom b)"
    unfolding b_def by blast
  from ms mb ls lb ps pb show ?thesis unfolding s_def b_def by blast
qed

text \<open>
  C6. A heartbeat calls \<open>play_sound_async\<close> exactly when a phase is running, not paused
  and has no second left (\<open>max(0, left) = 0\<close>); these are exactly the heartbeats that
  change the mode, the one that ends the run included. The Start/Pause/Resume button and
  Reset never call it.
\<close>

theorem alert_iff_phase_end:
  "(fst (heartbeat now now2 s) = [PlaySoundAsync (audio_path s)] \<longleftrightarrow>
      mode s \<noteq> Idle \<and> \<not> paused s \<and> max 0 (left_at now s) = 0) \<and>
   (fst (heartbeat now now2 s) = [] \<longleftrightarrow>
      \<not> (mode s \<noteq> Idle \<and> \<not> paused s \<and> max 0 (left_at now s) = 0)) \<and>
   (mode (snd (heartbeat now now2 s)) \<noteq> mode s \<longleftrightarrow>
      mode s \<noteq> Idle \<and> \<not> paused s \<and> max 0 (left_at now s) = 0) \<and>
   PlaySoundAsync p \<notin> set (fst (on_start_pause_resume e now s)) \<and>
   PlaySoundAsync p \<notin> set (fst (on_reset e s))"
proof -
  have 1: "fst (heartbeat now now2 s) = [PlaySoundAsync (audio_path s)] \<longleftrightarrow>
      mode s \<noteq> Idle \<and> \<not> paused s \<and> max 0 (left_at now s) = 0"
    by (cases "mode s") (auto simp: heartbeat_def Let_def)
  have 2: "fst (heartbeat now now2 s) = [] \<longleftrightarrow>
      \<not> (mode s \<noteq> Idle \<and> \<not> paused s \<and> max 0 (left_at now s) = 0)"
    by (cases "mode s") (auto simp: heartbeat_def Let_def)
  have 3: "mode (snd (heartbeat now now2 s)) \<noteq> mode s \<longleftrightarrow>
      mode s \<noteq> Idle \<and> \<not> paused s \<and> max 0 (left_at now s) = 0"
    by (cases "mode s")
       (auto simp: heartbeat_def advance_phase_def enter_break_def enter_study_def
          render_bottom_dynamic_def render_bottom_static_def update_bottom_with_left_def Let_def)
  have 4: "PlaySoundAsync p \<notin> set (fst (on_start_pause_resume e now s))"
    by (auto simp: on_start_pause_resume_def split: sum.splits prod.splits)
  have 5: "PlaySoundAsync p \<notin> set (fst (on_reset e s))"
    by (auto simp: on_reset_def Let_def split: sum.splits prod.splits)
  from 1 2 3 4 5 show ?thesis by blast
qed

text \<open>
  C7, as stated, fails: a phase resumed with no second left is running with its deadline at
  the clock value of the resume, and a heartbeat that reads the same clock value ends the
  phase and plays the sound.
\<close>

theorem tick_after_resume_advances:
  "mode (exec [Press (cfg 2 1 5 15) 0, Tick (297 / 5) (297 / 5), Press (cfg 2 1 5 15) (1191 / 20),
               Press (cfg 2 1 5 15) 100] (init None)) = Study \<and>
   \<not> paused (exec [Press (cfg 2 1 5 15) 0, Tick (297 / 5) (297 / 5), Press (cfg 2 1 5 15) (1191 / 20),
               Press (cfg 2 1 5 15) 100] (init None)) \<and>
   phase_end_monot (exec [Press (cfg 2 1 5 15) 0, Tick (297 / 5) (297 / 5), Press (cfg 2 1 5 15) (1191 / 20),
               Press (cfg 2 1 5 15) 100] (init None)) = 100 \<and>
   fst (heartbeat 100 100 (exec [Press (cfg 2 1 5 15) 0, Tick (297 / 5) (297 / 5),
               Press (cfg 2 1 5 15) (1191 / 20), Press (cfg 2 1 5 15) 100] (init None))) =
     [PlaySoundAsync None] \<and>
   mode (snd (heartbeat 100 100 (exec [Press (cfg 2 1 5 15) 0, Tick (297 / 5) (297 / 5),
               Press (cfg 2 1 5 15) (1191 / 20), Press (cfg 2 1 5 15) 100] (init None)))) = Break \<and>
   run_state (snd (heartbeat 100 100 (exec [Press (cfg 2 1 5 15) 0, Tick (297 / 5) (297 / 5),
               Press (cfg 2 1 5 15) (1191 / 20), Press (cfg 2 1 5 15) 100] (init None)))) \<noteq>
     run_state (exec [Press (cfg 2 1 5 15) 0, Tick (297 / 5) (297 / 5), Press (cfg 2 1 5 15) (1191 / 20),
               Press (cfg 2 1 5 15) 100] (init None))"
  by code_simp

text \<open>
  C7, amended. With the clock standing still, a heartbeat after a heartbeat changes
  nothing, widget texts included, and plays no sound; in Idle and while paused a heartbeat
  leaves the run state as it was; and a heartbeat changes the run state exactly when it
  finds a running phase with no second left.
\<close>

theorem tick_idempotent:
  "heartbeat now now (snd (heartbeat now now (exec evs (init ap)))) =
     ([], snd (heartbeat now now (exec evs (init ap)))) \<and>
   (mode (exec evs (init ap)) = Idle \<or> paused (exec evs (init ap)) \<longrightarrow>
      fst (heartbeat now now (exec evs (init ap))) = [] \<and>
      run_state (snd (heartbeat now now (exec evs (init ap)))) = run_state (exec evs (init ap))) \<and>
   (run_state (snd (heartbeat now now (exec evs (init ap)))) = run_state (exec evs (init ap)) \<longleftrightarrow>
      \<not> (mode (exec evs (init ap)) \<noteq> Idle \<and> \<not> paused (exec evs (init ap)) \<and>
         left_at now (exec evs (init ap)) \<le> 0))"
proof -
  define s where "s = exec evs (init ap)"
  have i: "inv s" unfolding s_def by (rule inv_reachable)
  have 1: "heartbeat now now (snd (heartbeat now now s)) = ([], snd (heartbeat now now s))"
    using i by (rule heartbeat_twice)
  have 2: "mode s = Idle \<or> paused s \<longrightarrow>
      fst (heartbeat now now s) = [] \<and> run_state (snd (heartbeat now now s)) = run_state s"
    by (cases "mode s") (simp_all add: heartbeat_def update_bottom_with_left_def run_state_def Let_def)
  have 3: "run_state (snd (heartbeat now now s)) = run_state s \<longleftrightarrow>
      \<not> (mode s \<noteq> Idle \<and> \<not> paused s \<and> left_at now s \<le> 0)"
    by (cases "mode s")
       (auto simp: heartbeat_def advance_phase_def enter_break_def enter_study_def
          render_bottom_dynamic_def render_bottom_static_def update_bottom_with_left_def
          run_state_def Let_def)
  from 1 2 3 show ?thesis unfolding s_def by blast
qed

theorem tick_idempotent_witness:
  "paused (exec [Press (cfg 12 25 5 15) 0, Press (cfg 12 25 5 15) 10] (init None)) \<and>
   fst (heartbeat 20 20 (exec [Press (cfg 12 25 5 15) 0, Press (cfg 12 25 5 15) 10] (init None))) = [] \<and>
   run_state (snd (heartbeat 20 20 (exec [Press (cfg 12 25 5 15) 0, Press (cfg 12 25 5 15) 10] (init None)))) =
     run_state (exec [Press (cfg 12 25 5 15) 0, Press (cfg 12 25 5 15) 10] (init None)) \<and>
   heartbeat 20 20 (snd (heartbeat 20 20 (exec [Press (cfg 12 25 5 15) 0, Press (cfg 12 25 5 15) 10] (init None)))) =
     ([], snd (heartbeat 20 20 (exec [Press (cfg 12 25 5 15) 0, Press (cfg 12 25 5 15) 10] (init None))))"
proof -
  have p: "paused (exec [Press (cfg 12 25 5 15) 0, Press (cfg 12 25 5 15) 10] (init None))"
    by code_simp
  from tick_idempotent[of 20 "[Press (cfg 12 25 5 15) 0, Press (cfg 12 25 5 15) 10]" None] p
  show ?thesis by blast
qed

text \<open>
  C9, as stated, fails: the width 2 of \<open>:02d\<close> is a minimum, so a countdown of 100
  minutes or more has a minutes field of three digits or more.
\<close>

theorem fmt_mm_ss_100_minutes: "fmt_mm_ss 6000 = ''100:00''"
  by code_simp

text \<open>
  C9, amended. The countdown is a digit string, a colon and a digit string; they read as
  the minutes and seconds of the input clamped at 0; the seconds have exactly two digits,
  the minutes at least two and exactly two precisely below 6000 seconds. The progress is
  a digit string, a slash and a digit string, reading as the two inputs clamped at 0,
  each of at least two digits and of exactly two precisely below 100. The countdown is
  \<open>00:00\<close> exactly for inputs that are not positive.
\<close>

theorem fmt_fields:
  "(\<exists>mm ss. fmt_mm_ss sec = mm @ '':'' @ ss \<and>
      list_all is_digit mm \<and> list_all is_digit ss \<and>
      int (val_digits mm) = max 0 sec div 60 \<and> int (val_digits ss) = max 0 sec mod 60 \<and>
      length ss = 2 \<and> 2 \<le> length mm \<and> (length mm = 2 \<longleftrightarrow> max 0 sec < 6000)) \<and>
   (\<exists>nn dd. fmt_progress n d = nn @ ''/'' @ dd \<and>
      list_all is_digit nn \<and> list_all is_digit dd \<and>
      int (val_digits nn) = max 0 n \<and> int (val_digits dd) = max 0 d \<and>
      2 \<le> length nn \<and> (length nn = 2 \<longleftrightarrow> max 0 n < 100) \<and>
      2 \<le> length dd \<and> (length dd = 2 \<longleftrightarrow> max 0 d < 100)) \<and>
   (fmt_mm_ss sec = ''00:00'' \<longleftrightarrow> sec \<le> 0)"
proof -
  let ?c = "max 0 sec"
  have c: "0 \<le> ?c div 60" "0 \<le> ?c mod 60" "?c mod 60 < 100" by simp_all
  have f: "fmt_mm_ss sec = fmt_02d (?c div 60) @ '':'' @ fmt_02d (?c mod 60)"
    by (simp add: fmt_mm_ss_def Let_def max_def)
  have m: "(?c div 60 < 100) = (?c < 6000)" by linarith
  have 1: "\<exists>mm ss. fmt_mm_ss sec = mm @ '':'' @ ss \<and>
      list_all is_digit mm \<and> list_all is_digit ss \<and>
      int (val_digits mm) = ?c div 60 \<and> int (val_digits ss) = ?c mod 60 \<and>
      length ss = 2 \<and> 2 \<le> length mm \<and> (length mm = 2 \<longleftrightarrow> ?c < 6000)"
    using f fmt_02d_digits[OF c(1)] fmt_02d_digits[OF c(2)] fmt_02d_val[OF c(1)] fmt_02d_val[OF c(2)]
      fmt_02d_length[OF c(1)] fmt_02d_length[OF c(2)] c(3) m
    by blast
  have n: "0 \<le> max 0 n" "0 \<le> max 0 d" by simp_all
  have g: "fmt_progress n d = fmt_02d (max 0 n) @ ''/'' @ fmt_02d (max 0 d)"
    by (simp add: fmt_progress_def Let_def)
  have 2: "\<exists>nn dd. fmt_progress n d = nn @ ''/'' @ dd \<and>
      list_all is_digit nn \<and> list_all is_digit dd \<and>
      int (val_digits nn) = max 0 n \<and> int (val_digits dd) = max 0 d \<and>
      2 \<le> length nn \<and> (length nn = 2 \<longleftrightarrow> max 0 n < 100) \<and>
      2 \<le> length dd \<and> (length dd = 2 \<longleftrightarrow> max 0 d < 100)"
    using g fmt_02d_digits[OF n(1)] fmt_02d_digits[OF n(2)] fmt_02d_val[OF n(1)] fmt_02d_val[OF n(2)]
      fmt_02d_length[OF n(1)] fmt_02d_length[OF n(2)]
    by blast
  have z: "fmt_mm_ss 0 = ''00:00''" by code_simp
  have 3: "fmt_mm_ss sec = ''00:00'' \<longleftrightarrow> sec \<le> 0"
  proof
    assume a: "fmt_mm_ss sec = ''00:00''"
    from 1 obtain mm ss where e: "fmt_mm_ss sec = mm @ '':'' @ ss" and dm: "list_all is_digit mm"
      and vm: "int (val_digits mm) = ?c div 60" and vs: "int (val_digits ss) = ?c mod 60"
      and ls: "length ss = 2" by blast
    from a e have "mm @ '':'' @ ss = ''00'' @ '':'' @ ''00''" by simp
    moreover have "length mm = 2"
    proof -
      from a e have "length (mm @ '':'' @ ss) = 5" by simp
      with ls show ?thesis by simp
    qed
    ultimately have "mm = ''00''" "ss = ''00''"
      by (auto simp: numeral_2_eq_2 length_Suc_conv)
    with vm vs have "?c div 60 = 0" "?c mod 60 = 0" by (simp_all add: val_digits_def digit_val_def)
    then have "?c = 0" by presburger
    then show "sec \<le> 0" by simp
  next
    assume "sec \<le> 0"
    then have "fmt_mm_ss sec = fmt_mm_ss 0" by (simp add: fmt_mm_ss_def)
    with z show "fmt_mm_ss sec = ''00:00''" by simp
  qed
  from 1 2 3 show ?thesis by blast
qed

text \<open>
  C10. The heartbeat that completes the last study phase of a run goes to Idle, not
  paused, leaves the counter at the session count and the configuration, the deadline and
  the frozen seconds as they were, and shows session count over session count with
  \<open>00:00\<close>. The counter only ever decreases by a Reset or by a press of the button in Idle.
\<close>

theorem completion_keeps_count:
  "(mode (exec evs (init ap)) = Study \<and> \<not> paused (exec evs (init ap)) \<and>
    left_at now (exec evs (init ap)) \<le> 0 \<and>
    total_sessions (exec evs (init ap)) \<le> done_pomodoros (exec evs (init ap)) + 1 \<longrightarrow>
      mode (snd (heartbeat now now2 (exec evs (init ap)))) = Idle \<and>
      \<not> paused (snd (heartbeat now now2 (exec evs (init ap)))) \<and>
      done_pomodoros (snd (heartbeat now now2 (exec evs (init ap)))) = total_sessions (exec evs (init ap)) \<and>
      total_sessions (snd (heartbeat now now2 (exec evs (init ap)))) = total_sessions (exec evs (init ap)) \<and>
      pomo_min (snd (heartbeat now now2 (exec evs (init ap)))) = pomo_min (exec evs (init ap)) \<and>
      short_min (snd (heartbeat now now2 (exec evs (init ap)))) = short_min (exec evs (init ap)) \<and>
      long_min (snd (heartbeat now now2 (exec evs (init ap)))) = long_min (exec evs (init ap)) \<and>
      phase_end_monot (snd (heartbeat now now2 (exec evs (init ap)))) = phase_end_monot (exec evs (init ap)) \<and>
      paused_left (snd (heartbeat now now2 (exec evs (init ap)))) = paused_left (exec evs (init ap)) \<and>
      lbl_bottom (snd (heartbeat now now2 (exec evs (init ap)))) =
        fmt_progress (total_sessions (exec evs (init ap))) (total_sessions (exec evs (init ap))) @ ''    00:00'') \<and>
   (done_pomodoros (snd (step ev s)) < done_pomodoros s \<longrightarrow>
      (\<exists>e. ev = Reset e) \<or> (\<exists>e t. ev = Press e t \<and> mode s = Idle))"
proof -
  define r where "r = exec evs (init ap)"
  have i: "inv r" unfolding r_def by (rule inv_reachable)
  have 1: "mode r = Study \<and> \<not> paused r \<and> left_at now r \<le> 0 \<and>
    total_sessions r \<le> done_pomodoros r + 1 \<longrightarrow>
      mode (snd (heartbeat now now2 r)) = Idle \<and>
      \<not> paused (snd (heartbeat now now2 r)) \<and>
      done_pomodoros (snd (heartbeat now now2 r)) = total_sessions r \<and>
      total_sessions (snd (heartbeat now now2 r)) = total_sessions r \<and>
      pomo_min (snd (heartbeat now now2 r)) = pomo_min r \<and>
      short_min (snd (heartbeat now now2 r)) = short_min r \<and>
      long_min (snd (heartbeat now now2 r)) = long_min r \<and>
      phase_end_monot (snd (heartbeat now now2 r)) = phase_end_monot r \<and>
      paused_left (snd (heartbeat now now2 r)) = paused_left r \<and>
      lbl_bottom (snd (heartbeat now now2 r)) =
        fmt_progress (total_sessions r) (total_sessions r) @ ''    00:00''"
  proof
    assume a: "mode r = Study \<and> \<not> paused r \<and> left_at now r \<le> 0 \<and>
      total_sessions r \<le> done_pomodoros r + 1"
    with i have d: "done_pomodoros r + 1 = total_sessions r" by (simp add: inv_def)
    from a show "mode (snd (heartbeat now now2 r)) = Idle \<and>
      \<not> paused (snd (heartbeat now now2 r)) \<and>
      done_pomodoros (snd (heartbeat now now2 r)) = total_sessions r \<and>
      total_sessions (snd (heartbeat now now2 r)) = total_sessions r \<and>
      pomo_min (snd (heartbeat now now2 r)) = pomo_min r \<and>
      short_min (snd (heartbeat now now2 r)) = short_min r \<and>
      long_min (snd (heartbeat now now2 r)) = long_min r \<and>
      phase_end_monot (snd (heartbeat now now2 r)) = phase_end_monot r \<and>
      paused_left (snd (heartbeat now now2 r)) = paused_left r \<and>
      lbl_bottom (snd (heartbeat now now2 r)) =
        fmt_progress (total_sessions r) (total_sessions r) @ ''    00:00''"
      by (simp add: heartbeat_def advance_phase_def render_bottom_static_def Let_def d)
  qed
  have 2: "done_pomodoros (snd (step ev s)) < done_pomodoros s \<longrightarrow>
      (\<exists>e. ev = Reset e) \<or> (\<exists>e t. ev = Press e t \<and> mode s = Idle)"
    by (cases ev) (auto simp: ops_defs Let_def split: if_splits)
  from 1 2 show ?thesis unfolding r_def by blast
qed

theorem completion_keeps_count_witness:
  "mode (exec [Press (cfg 1 1 5 15) 0] (init None)) = Study \<and>
   \<not> paused (exec [Press (cfg 1 1 5 15) 0] (init None)) \<and>
   left_at 60 (exec [Press (cfg 1 1 5 15) 0] (init None)) \<le> 0 \<and>
   total_sessions (exec [Press (cfg 1 1 5 15) 0] (init None)) \<le>
     done_pomodoros (exec [Press (cfg 1 1 5 15) 0] (init None)) + 1 \<and>
   mode (snd (heartbeat 60 60 (exec [Press (cfg 1 1 5 15) 0] (init None)))) = Idle \<and>
   done_pomodoros (snd (heartbeat 60 60 (exec [Press (cfg 1 1 5 15) 0] (init None)))) = 1 \<and>
   lbl_bottom (snd (heartbeat 60 60 (exec [Press (cfg 1 1 5 15) 0] (init None)))) = ''01/01    00:00'' \<and>
   done_pomodoros (snd (step (Reset (cfg 1 1 5 15)) (snd (heartbeat 60 60 (exec [Press (cfg 1 1 5 15) 0] (init None))))))
     < done_pomodoros (snd (heartbeat 60 60 (exec [Press (cfg 1 1 5 15) 0] (init None))))"
proof -
  define s where "s = exec [Press (cfg 1 1 5 15) 0] (init None)"
  define f where "f = snd (heartbeat 60 60 s)"
  have h: "mode s = Study \<and> \<not> paused s \<and> left_at 60 s \<le> 0 \<and>
           total_sessions s \<le> done_pomodoros s + 1"
    unfolding s_def by code_simp
  have t: "total_sessions s = 1" unfolding s_def by code_simp
  have p: "fmt_progress 1 1 @ ''    00:00'' = ''01/01    00:00''" by code_simp
  have r: "done_pomodoros (snd (step (Reset (cfg 1 1 5 15)) f)) < done_pomodoros f"
    unfolding f_def s_def by code_simp
  from completion_keeps_count[of "[Press (cfg 1 1 5 15) 0]" None 60 60 "Reset (cfg 1 1 5 15)" f] h
  have "mode (snd (heartbeat 60 60 s)) = Idle \<and>
        done_pomodoros (snd (heartbeat 60 60 s)) = total_sessions s \<and>
        lbl_bottom (snd (heartbeat 60 60 s)) = fmt_progress (total_sessions s) (total_sessions s) @ ''    00:00''"
    unfolding s_def by blast
  with t p have "mode (snd (heartbeat 60 60 s)) = Idle \<and>
        done_pomodoros (snd (heartbeat 60 60 s)) = 1 \<and>
        lbl_bottom (snd (heartbeat 60 60 s)) = ''01/01    00:00''"
    by simp
  with h r show ?thesis unfolding f_def s_def by blast
qed

end
